theory Spec2Isabelle
  imports Main "HOL-Library.AList" "HOL-Library.Sublist"
begin

section \<open>Values\<close>

text \<open>
  The query builder of \<^verbatim>\<open>src/QueryBuilder/index.ts\<close> consumes and produces untyped
  JavaScript values (\<^verbatim>\<open>any\<close>). They are modelled as a JSON tree; an object is the
  list of its entries in \<^verbatim>\<open>Object.entries\<close> order.
\<close>

datatype json =
    JNull
  | JBool bool
  | JNum int
  | JStr string
  | JArr "json list"
  | JObj "(string \<times> json) list"

datatype error = InvalidSearchParameterError string

text \<open>The two characters the splitting loop looks at.\<close>

definition backslash :: char where
  "backslash = CHR 0x5C"

definition comma :: char where
  "comma = CHR 0x2C"

text \<open>
  \<^verbatim>\<open>String.prototype.substring(start, end)\<close>: both indices are clamped to the length of
  the string and swapped when \<^verbatim>\<open>start > end\<close>. \<^verbatim>\<open>substring(start)\<close> runs to the end.
\<close>

definition substring :: "string \<Rightarrow> nat \<Rightarrow> nat \<Rightarrow> string" where
  "substring s start end' =
     (let a = min start (length s); b = min end' (length s)
      in take (max a b - min a b) (drop (min a b) s))"

definition substring_from :: "string \<Rightarrow> nat \<Rightarrow> string" where
  "substring_from s start = drop (min start (length s)) s"

section \<open>The value splitter (first loop of searchParamQuery)\<close>

text \<open>
  The loop state is the (mutated) \<^verbatim>\<open>searchValue\<close>, the index \<^verbatim>\<open>c\<close>,
  \<^verbatim>\<open>lastIndex\<close> and the array \<^verbatim>\<open>splitSearchValue\<close>. Removing an escaping
  backslash shortens \<^verbatim>\<open>searchValue\<close> while the scan is running; \<^verbatim>\<open>c++\<close> then steps
  over the comma that has moved to index \<^verbatim>\<open>c\<close>.
\<close>

function split_loop :: "string \<Rightarrow> nat \<Rightarrow> nat \<Rightarrow> string list \<Rightarrow> string \<times> nat \<times> string list" where
  "split_loop searchValue c lastIndex splitSearchValue =
     (if c < length searchValue then
        (if searchValue ! c = backslash then
           (if c + 1 < length searchValue \<and> searchValue ! (c + 1) = comma
            then split_loop (substring searchValue 0 c @ substring_from searchValue (c + 1))
                   (c + 1) lastIndex splitSearchValue
            else split_loop searchValue (c + 1) lastIndex splitSearchValue)
         else if searchValue ! c = comma then
           split_loop searchValue (c + 1) (c + 1)
             (splitSearchValue @ [substring searchValue lastIndex c])
         else split_loop searchValue (c + 1) lastIndex splitSearchValue)
      else (searchValue, lastIndex, splitSearchValue))"
  by pat_completeness auto
termination
  by (relation "measure (\<lambda>(sv, c, li, acc). length sv - c)")
     (auto simp: substring_def substring_from_def)

declare split_loop.simps [simp del]

definition splitSearchValue :: "string \<Rightarrow> string list" where
  "splitSearchValue searchValue =
     (case split_loop searchValue 0 0 [] of
        (sv, lastIndex, acc) \<Rightarrow> acc @ [substring_from sv lastIndex])"

section \<open>Registry types and the type constructors\<close>

text \<open>
  Modelled from the spec: the declarations of \<^verbatim>\<open>CompiledSearchParam\<close> and
  \<^verbatim>\<open>SearchParam\<close> (module \<^verbatim>\<open>FHIRSearchParametersRegistry\<close>) are not part of the
  sources at hand. A compiled descriptor is opaque to the query builder apart from its
  optional condition, a triple of field name, operator and match value, of which the code
  reads components 0 and 2. A search parameter carries its declared type, a string, and
  the ordered list of its compiled descriptors.
\<close>

record 'd CompiledSearchParam =
  descriptor :: 'd
  condition :: "(string \<times> string \<times> string) option"

record 'd SearchParam =
  name :: string
  type :: string
  compiled :: "'d CompiledSearchParam list"

text \<open>
  The six imported constructors \<^verbatim>\<open>stringQuery\<close>, \<^verbatim>\<open>dateQuery\<close>, \<^verbatim>\<open>tokenQuery\<close>,
  \<^verbatim>\<open>numberQuery\<close>, \<^verbatim>\<open>quantityQuery\<close> and \<^verbatim>\<open>referenceQuery\<close> live in other
  modules; they are parameters of the model.
\<close>

record 'd typeQueries =
  stringQuery :: "'d CompiledSearchParam \<Rightarrow> string \<Rightarrow> json"
  dateQuery :: "'d CompiledSearchParam \<Rightarrow> string \<Rightarrow> json"
  tokenQuery :: "'d CompiledSearchParam \<Rightarrow> string \<Rightarrow> json"
  numberQuery :: "'d CompiledSearchParam \<Rightarrow> string \<Rightarrow> json"
  quantityQuery :: "'d CompiledSearchParam \<Rightarrow> string \<Rightarrow> json"
  referenceQuery :: "'d CompiledSearchParam \<Rightarrow> string \<Rightarrow> json"

text \<open>\<^verbatim>\<open>getSearchParameter(resourceType, name)\<close>; \<^verbatim>\<open>undefined\<close> is \<open>None\<close>.\<close>

type_synonym 'd FHIRSearchParametersRegistry = "string \<Rightarrow> string \<Rightarrow> 'd SearchParam option"

record TypeSearchRequest =
  resourceType :: string
  queryParams :: "(string \<times> json) list"

section \<open>typeQueryWithConditions\<close>

text \<open>The \<^verbatim>\<open>switch\<close> on \<^verbatim>\<open>searchParam.type\<close> that assigns the local \<^verbatim>\<open>typeQuery\<close>.\<close>

definition typeQuery ::
  "'d typeQueries \<Rightarrow> 'd SearchParam \<Rightarrow> 'd CompiledSearchParam \<Rightarrow> string \<Rightarrow> json" where
  "typeQuery tq searchParam compiledSearchParam searchValue =
     (if type searchParam = ''string'' then stringQuery tq compiledSearchParam searchValue
      else if type searchParam = ''date'' then dateQuery tq compiledSearchParam searchValue
      else if type searchParam = ''token'' then tokenQuery tq compiledSearchParam searchValue
      else if type searchParam = ''number'' then numberQuery tq compiledSearchParam searchValue
      else if type searchParam = ''quantity'' then quantityQuery tq compiledSearchParam searchValue
      else if type searchParam = ''reference'' then referenceQuery tq compiledSearchParam searchValue
      else stringQuery tq compiledSearchParam searchValue)"

definition multi_match :: "string \<Rightarrow> string \<Rightarrow> json" where
  "multi_match field query =
     JObj [(''multi_match'',
            JObj [(''fields'', JArr [JStr field, JStr (field @ ''.*'')]),
                  (''query'', JStr query),
                  (''lenient'', JBool True)])]"

definition typeQueryWithConditions ::
  "'d typeQueries \<Rightarrow> 'd SearchParam \<Rightarrow> 'd CompiledSearchParam \<Rightarrow> string \<Rightarrow> json" where
  "typeQueryWithConditions tq searchParam compiledSearchParam searchValue =
     (case condition compiledSearchParam of
        Some (c0, c1, c2) \<Rightarrow>
          JObj [(''bool'',
                 JObj [(''must'',
                        JArr [typeQuery tq searchParam compiledSearchParam searchValue,
                              multi_match c0 c2])])]
      | None \<Rightarrow> typeQuery tq searchParam compiledSearchParam searchValue)"

section \<open>searchParamQuery\<close>

text \<open>
  Every element pushed to \<^verbatim>\<open>queryList\<close> is the array returned by
  \<^verbatim>\<open>searchParam.compiled.map\<close> (\<open>compiledQueries\<close> below). The statement \<^verbatim>\<open>queryList.join()\<close> computes a string
  and drops it; \<^verbatim>\<open>queryList\<close> is unchanged by it.
\<close>

definition compiledQueries :: "'d typeQueries \<Rightarrow> 'd SearchParam \<Rightarrow> string \<Rightarrow> json" where
  "compiledQueries tq searchParam alternative =
     JArr (map (\<lambda>compiled'. typeQueryWithConditions tq searchParam compiled' alternative)
               (compiled searchParam))"

definition should :: "json list \<Rightarrow> json" where
  "should queryList = JObj [(''bool'', JObj [(''should'', JArr queryList)])]"

definition searchParamQuery :: "'d typeQueries \<Rightarrow> 'd SearchParam \<Rightarrow> string \<Rightarrow> json" where
  "searchParamQuery tq searchParam searchValue =
     (let queryList = map (compiledQueries tq searchParam) (splitSearchValue searchValue)
      in if length queryList = 1 then queryList ! 0 else should queryList)"

section \<open>normalizeQueryParams\<close>

text \<open>
  \<^verbatim>\<open>Array.isArray(v) && v.every(s => typeof s === 'string')\<close>, returning the strings of
  the array when the test holds.
\<close>

fun allStrings :: "json list \<Rightarrow> string list option" where
  "allStrings [] = Some []"
| "allStrings (JStr s # xs) = map_option ((#) s) (allStrings xs)"
| "allStrings (_ # xs) = None"

definition invalidParameterMessage :: "string \<Rightarrow> string" where
  "invalidParameterMessage searchParameter =
     ''Invalid search parameter: '' @ [CHR 0x27] @ searchParameter @ [CHR 0x27]"

text \<open>
  A plain object is the list of its own properties in the order of their creation. The
  values handled here are plain data: extensible, writable, without accessors of their
  own.

  \<^verbatim>\<open>obj[key] = v\<close> on an object created by \<^verbatim>\<open>{}\<close>: the key \<^verbatim>\<open>__proto__\<close> is no own
  property, so the assignment reaches the accessor inherited from
  \<^verbatim>\<open>Object.prototype\<close>; its setter makes \<open>v\<close> (here always an array) the prototype of
  the object and creates no own property. For every other key the own property is
  overwritten in place, or created as the last one.
\<close>

definition setProperty :: "string \<Rightarrow> 'v \<Rightarrow> (string \<times> 'v) list \<Rightarrow> (string \<times> 'v) list" where
  "setProperty key v obj = (if key = ''__proto__'' then obj else AList.update key v obj)"

text \<open>
  \<^verbatim>\<open>Object.entries\<close> lists the own properties whose key is an array index (a decimal
  numeral without leading zero, below \<open>2\<^sup>3\<^sup>2 - 1\<close>) first, in ascending numeric order, and
  then the other keys in the order of their creation.
\<close>

definition isDigit :: "char \<Rightarrow> bool" where
  "isDigit c = (c \<in> set ''0123456789'')"

definition numericValue :: "string \<Rightarrow> nat" where
  "numericValue key = foldl (\<lambda>n c. 10 * n + ((of_char c :: nat) - 48)) 0 key"

definition isArrayIndex :: "string \<Rightarrow> bool" where
  "isArrayIndex key =
     (case key of
        [] \<Rightarrow> False
      | c # cs \<Rightarrow>
          list_all isDigit key \<and> (if cs = [] then True else c \<noteq> CHR ''0'')
            \<and> numericValue key < 4294967295)"

definition Object_entries :: "(string \<times> 'v) list \<Rightarrow> (string \<times> 'v) list" where
  "Object_entries obj =
     sort_key (\<lambda>e. numericValue (fst e)) (filter (\<lambda>e. isArrayIndex (fst e)) obj)
       @ filter (\<lambda>e. \<not> isArrayIndex (fst e)) obj"

text \<open>
  The \<^verbatim>\<open>forEach\<close> over \<^verbatim>\<open>Object.entries(queryParams)\<close>. The request's
  \<^verbatim>\<open>queryParams\<close> is given as that list of entries, so its keys are distinct. The
  first \<^verbatim>\<open>throw\<close> ends the iteration. The result is the object
  \<^verbatim>\<open>normalizedQueryParams\<close>.
\<close>

fun normalize_forEach ::
  "(string \<times> json) list \<Rightarrow> (string \<times> string list) list \<Rightarrow> error + (string \<times> string list) list" where
  "normalize_forEach [] normalizedQueryParams = Inr normalizedQueryParams"
| "normalize_forEach ((searchParameter, searchValue) # entries) normalizedQueryParams =
     (case searchValue of
        JStr s \<Rightarrow>
          normalize_forEach entries (setProperty searchParameter [s] normalizedQueryParams)
      | JArr xs \<Rightarrow>
          (case allStrings xs of
             Some ss \<Rightarrow>
               normalize_forEach entries (setProperty searchParameter ss normalizedQueryParams)
           | None \<Rightarrow> Inl (InvalidSearchParameterError (invalidParameterMessage searchParameter)))
      | _ \<Rightarrow> Inl (InvalidSearchParameterError (invalidParameterMessage searchParameter)))"

definition normalizeQueryParams ::
  "(string \<times> json) list \<Rightarrow> error + (string \<times> string list) list" where
  "normalizeQueryParams queryParams' = normalize_forEach queryParams' []"

section \<open>searchRequestQuery and buildQueryForAllSearchParameters\<close>

definition unknownParameterMessage :: "string \<Rightarrow> string \<Rightarrow> string" where
  "unknownParameterMessage searchParameter resourceType' =
     ''Invalid search parameter '' @ [CHR 0x27] @ searchParameter @ [CHR 0x27]
       @ '' for resource type '' @ resourceType'"

text \<open>
  The \<^verbatim>\<open>flatMap\<close> callback, entry by entry: the callback's array (one
  \<^verbatim>\<open>searchParamQuery\<close> result per value) is spliced into the result; a \<^verbatim>\<open>throw\<close> in an
  earlier entry wins.
\<close>

fun searchRequest_flatMap ::
  "'d typeQueries \<Rightarrow> 'd FHIRSearchParametersRegistry \<Rightarrow> string \<Rightarrow>
     (string \<times> string list) list \<Rightarrow> error + json list" where
  "searchRequest_flatMap tq fhirSearchParametersRegistry resourceType' [] = Inr []"
| "searchRequest_flatMap tq fhirSearchParametersRegistry resourceType'
       ((searchParameter, searchValues) # entries) =
     (case fhirSearchParametersRegistry resourceType' searchParameter of
        None \<Rightarrow>
          Inl (InvalidSearchParameterError (unknownParameterMessage searchParameter resourceType'))
      | Some fhirSearchParam \<Rightarrow>
          (case searchRequest_flatMap tq fhirSearchParametersRegistry resourceType' entries of
             Inl e \<Rightarrow> Inl e
           | Inr queries \<Rightarrow>
               Inr (map (searchParamQuery tq fhirSearchParam) searchValues @ queries)))"

text \<open>
  \<^verbatim>\<open>NON_SEARCHABLE_PARAMETERS\<close> is imported from \<^verbatim>\<open>../constants\<close>; it is a parameter
  of the model. The entries filtered and compiled are those of
  \<^verbatim>\<open>Object.entries(normalizeQueryParams(queryParams))\<close>, the own properties of the
  normalized object.
\<close>

definition searchRequestQuery ::
  "'d typeQueries \<Rightarrow> string list \<Rightarrow> 'd FHIRSearchParametersRegistry \<Rightarrow> TypeSearchRequest \<Rightarrow>
     error + json list" where
  "searchRequestQuery tq NON_SEARCHABLE_PARAMETERS fhirSearchParametersRegistry request =
     (case normalizeQueryParams (queryParams request) of
        Inl e \<Rightarrow> Inl e
      | Inr normalized \<Rightarrow>
          searchRequest_flatMap tq fhirSearchParametersRegistry (resourceType request)
            (filter (\<lambda>(searchParameter, searchValues).
                       searchParameter \<notin> set NON_SEARCHABLE_PARAMETERS)
                    (Object_entries normalized)))"

text \<open>The caller passes \<^verbatim>\<open>additionalFilters\<close>; the default of the source is \<open>[]\<close>.\<close>

definition buildQueryForAllSearchParameters ::
  "'d typeQueries \<Rightarrow> string list \<Rightarrow> 'd FHIRSearchParametersRegistry \<Rightarrow> TypeSearchRequest \<Rightarrow>
     json list \<Rightarrow> error + json" where
  "buildQueryForAllSearchParameters tq NON_SEARCHABLE_PARAMETERS fhirSearchParametersRegistry
       request additionalFilters =
     (case searchRequestQuery tq NON_SEARCHABLE_PARAMETERS fhirSearchParametersRegistry request of
        Inl e \<Rightarrow> Inl e
      | Inr must \<Rightarrow>
          Inr (JObj [(''bool'', JObj [(''filter'', JArr additionalFilters),
                                      (''must'', JArr must)])]))"

section \<open>Notions of the specification\<close>

text \<open>
  A comma is unescaped when the character just before it is not a backslash. The flag
  says whether the previous character was one.
\<close>

fun commas_after :: "bool \<Rightarrow> string \<Rightarrow> nat" where
  "commas_after prev [] = 0"
| "commas_after prev (x # xs) =
     (if x = comma \<and> \<not> prev then 1 else 0) + commas_after (x = backslash) xs"

definition unescaped_commas :: "string \<Rightarrow> nat" where
  "unescaped_commas s = commas_after False s"

text \<open>
  Single-level unescaping as the specification words it: each backslash immediately
  before a comma is removed and the comma is kept.
\<close>

fun spec_unescape :: "string \<Rightarrow> string" where
  "spec_unescape (a # b # cs) =
     (if a = backslash \<and> b = comma then comma # spec_unescape cs
      else a # spec_unescape (b # cs))"
| "spec_unescape cs = cs"

text \<open>
  A list-recursive reading of the splitting loop, used in the proofs: \<open>cur\<close> is the
  segment collected so far.
\<close>

fun scan :: "string \<Rightarrow> string \<Rightarrow> string list" where
  "scan cur [] = [cur]"
| "scan cur [a] = (if a = comma then [cur, []] else [cur @ [a]])"
| "scan cur (a # b # cs) =
     (if a = backslash \<and> b = comma then scan (cur @ [comma]) cs
      else if a = comma then cur # scan [] (b # cs)
      else scan (cur @ [a]) (b # cs))"

text \<open>
  The shapes \<^verbatim>\<open>normalizeQueryParams\<close> accepts, a string or an array of strings only,
  and the sequence of strings such a value stands for.
\<close>

fun isString :: "json \<Rightarrow> bool" where
  "isString (JStr s) = True"
| "isString _ = False"

fun stringOrStringArray :: "json \<Rightarrow> bool" where
  "stringOrStringArray (JStr s) = True"
| "stringOrStringArray (JArr xs) = list_all isString xs"
| "stringOrStringArray _ = False"

fun stringsOf :: "json \<Rightarrow> string list" where
  "stringsOf (JStr s) = [s]"
| "stringsOf (JArr xs) = [s. JStr s \<leftarrow> xs]"
| "stringsOf _ = []"

text \<open>
  The pairs of a searchable parameter name and one of its values, in the order of the
  entries and, within an entry, of its values.
\<close>

definition parameterValuePairs :: "string list \<Rightarrow> (string \<times> json) list \<Rightarrow> (string \<times> string) list" where
  "parameterValuePairs NON_SEARCHABLE_PARAMETERS queryParams' =
     concat (map (\<lambda>e. map (Pair (fst e)) (stringsOf (snd e)))
                 (filter (\<lambda>e. fst e \<notin> set NON_SEARCHABLE_PARAMETERS) queryParams'))"

section \<open>Sample collaborators for concrete evaluations\<close>

definition sample_leaf :: "string \<Rightarrow> string CompiledSearchParam \<Rightarrow> string \<Rightarrow> json" where
  "sample_leaf kind c v = JObj [(kind, JStr (descriptor c)), (''value'', JStr v)]"

definition sample_typeQueries :: "string typeQueries" where
  "sample_typeQueries =
     \<lparr> stringQuery = sample_leaf ''match'',
       dateQuery = sample_leaf ''range'',
       tokenQuery = sample_leaf ''term'',
       numberQuery = sample_leaf ''number'',
       quantityQuery = sample_leaf ''quantity'',
       referenceQuery = sample_leaf ''reference'' \<rparr>"

definition sample_family :: "string CompiledSearchParam" where
  "sample_family = \<lparr> descriptor = ''name.family'', condition = None \<rparr>"

definition sample_phone :: "string CompiledSearchParam" where
  "sample_phone =
     \<lparr> descriptor = ''telecom.value'',
       condition = Some (''telecom.system'', ''='', ''phone'') \<rparr>"

definition sample_name :: "string SearchParam" where
  "sample_name = \<lparr> name = ''name'', type = ''string'', compiled = [sample_family] \<rparr>"

definition sample_registry :: "string FHIRSearchParametersRegistry" where
  "sample_registry resourceType' searchParameter =
     (if resourceType' = ''Patient'' \<and> searchParameter = ''name'' then Some sample_name
      else if resourceType' = ''Patient'' \<and> searchParameter = ''phone''
      then Some \<lparr> name = ''phone'', type = ''token'', compiled = [sample_phone] \<rparr>
      else None)"

section \<open>The loop and its list-recursive reading agree\<close>

lemma bs_ne_comma [simp]: "backslash \<noteq> comma" "comma \<noteq> backslash"
  by (simp_all add: backslash_def comma_def)

lemma split_loop_scan:
  "lastIndex \<le> c \<Longrightarrow> c \<le> length sv \<Longrightarrow>
   (case split_loop sv c lastIndex acc of
      (sv', li', acc') \<Rightarrow> acc' @ [substring_from sv' li'])
   = acc @ scan (drop lastIndex (take c sv)) (drop c sv)"
proof (induction sv c lastIndex acc rule: split_loop.induct)
  case (1 sv c li acc)
  show ?case
  proof (cases "c < length sv")
    case False
    then have "split_loop sv c li acc = (sv, li, acc)"
      by (subst split_loop.simps) simp
    with False "1.prems" show ?thesis
      by (simp add: substring_from_def min_def)
  next
    case True
    note lt = True
    then have dc: "drop c sv = sv ! c # drop (Suc c) sv"
      by (simp add: Cons_nth_drop_Suc)
    show ?thesis
    proof (cases "sv ! c = backslash")
      case True
      note bs = True
      show ?thesis
      proof (cases "c + 1 < length sv \<and> sv ! (c + 1) = comma")
        case True
        then have dc2: "drop (Suc c) sv = comma # drop (Suc (Suc c)) sv"
          using Cons_nth_drop_Suc [of "Suc c" sv] by simp
        define sv2 where "sv2 = substring sv 0 c @ substring_from sv (c + 1)"
        have sv2: "sv2 = take c sv @ comma # drop (Suc (Suc c)) sv"
          using lt dc2 by (simp add: sv2_def substring_def substring_from_def min_def)
        have len: "c + 1 \<le> length sv2"
          unfolding sv2 using True lt by (simp, arith)
        have ih: "(case split_loop sv2 (c + 1) li acc of
                    (sv', li', acc') \<Rightarrow> acc' @ [substring_from sv' li'])
                  = acc @ scan (drop li (take (c + 1) sv2)) (drop (c + 1) sv2)"
          using "1.IH"(1) [OF lt bs True _ len [unfolded sv2_def]] "1.prems"
          by (simp add: sv2_def)
        have t: "take (Suc c) sv2 = take c sv @ [comma]"
          unfolding sv2 using lt by simp
        have d: "drop (Suc c) sv2 = drop (Suc (Suc c)) sv"
          unfolding sv2 using lt by simp
        have "split_loop sv c li acc = split_loop sv2 (c + 1) li acc"
          unfolding sv2_def using lt bs True by (subst split_loop.simps) simp
        then show ?thesis
          using ih "1.prems" lt bs dc dc2 by (simp add: t d)
      next
        case False
        have ih: "(case split_loop sv (c + 1) li acc of
                    (sv', li', acc') \<Rightarrow> acc' @ [substring_from sv' li'])
                  = acc @ scan (drop li (take (c + 1) sv)) (drop (c + 1) sv)"
          using "1.IH"(2) [OF lt bs False] "1.prems" lt by simp
        have eq: "split_loop sv c li acc = split_loop sv (c + 1) li acc"
          using lt bs False by (subst split_loop.simps) auto
        have tk: "take (Suc c) sv = take c sv @ [backslash]"
          using lt bs by (simp add: take_Suc_conv_app_nth)
        show ?thesis
        proof (cases "drop (Suc c) sv")
          case Nil
          then show ?thesis using eq ih dc bs "1.prems" by (simp add: tk)
        next
          case (Cons b cs)
          then have l2: "c + 1 < length sv"
            by (cases "Suc c < length sv") simp_all
          then have "b = sv ! (c + 1)"
            using Cons Cons_nth_drop_Suc [of "Suc c" sv] by simp
          with False l2 have "b \<noteq> comma" by simp
          then show ?thesis using eq ih dc bs Cons "1.prems" by (simp add: tk)
        qed
      qed
    next
      case False
      note nbs = False
      show ?thesis
      proof (cases "sv ! c = comma")
        case True
        have ih: "(case split_loop sv (c + 1) (c + 1) (acc @ [substring sv li c]) of
                    (sv', li', acc') \<Rightarrow> acc' @ [substring_from sv' li'])
                  = (acc @ [substring sv li c]) @ scan (drop (c + 1) (take (c + 1) sv)) (drop (c + 1) sv)"
          using "1.IH"(3) [OF lt nbs True] "1.prems" lt by simp
        have eq: "split_loop sv c li acc = split_loop sv (c + 1) (c + 1) (acc @ [substring sv li c])"
          using lt nbs True by (subst split_loop.simps) simp
        have ss: "substring sv li c = drop li (take c sv)"
          using "1.prems" lt by (simp add: substring_def min_def max_def drop_take)
        show ?thesis
        proof (cases "drop (Suc c) sv")
          case Nil
          then show ?thesis using eq ih dc True "1.prems" by (simp add: ss)
        next
          case (Cons b cs)
          then show ?thesis using eq ih dc True nbs "1.prems" by (simp add: ss)
        qed
      next
        case False
        have ih: "(case split_loop sv (c + 1) li acc of
                    (sv', li', acc') \<Rightarrow> acc' @ [substring_from sv' li'])
                  = acc @ scan (drop li (take (c + 1) sv)) (drop (c + 1) sv)"
          using "1.IH"(4) [OF lt nbs False] "1.prems" lt by simp
        have eq: "split_loop sv c li acc = split_loop sv (c + 1) li acc"
          using lt nbs False by (subst split_loop.simps) simp
        have tk: "take (Suc c) sv = take c sv @ [sv ! c]"
          using lt by (simp add: take_Suc_conv_app_nth)
        show ?thesis
        proof (cases "drop (Suc c) sv")
          case Nil
          then show ?thesis using eq ih dc False nbs "1.prems" by (simp add: tk)
        next
          case (Cons b cs)
          then show ?thesis using eq ih dc False nbs "1.prems" by (simp add: tk)
        qed
      qed
    qed
  qed
qed


lemma splitSearchValue_scan: "splitSearchValue s = scan [] s"
  using split_loop_scan [of 0 0 s "[]"] by (simp add: splitSearchValue_def)

lemma length_scan: "length (scan cur s) = Suc (commas_after False s)"
  by (induction cur s rule: scan.induct) auto

lemma scan_no_comma: "commas_after False s = 0 \<Longrightarrow> scan cur s = [cur @ spec_unescape s]"
  by (induction cur s rule: scan.induct) (auto split: if_splits)

lemma scan_nonempty: "scan cur s \<noteq> []"
  by (induction cur s rule: scan.induct) auto

section \<open>Properties of the value splitter\<close>

text \<open>
  C10. On the five characters \<open>a\<close>, backslash, backslash, comma, \<open>b\<close> the splitter
  returns the single alternative \<open>a\<close>, backslash, comma, \<open>b\<close>: the first backslash is
  kept, the second one is consumed, and the comma does not separate.
\<close>

theorem C10_double_backslash:
  "splitSearchValue [CHR ''a'', CHR 0x5C, CHR 0x5C, CHR '','', CHR ''b'']
     = [[CHR ''a'', CHR 0x5C, CHR '','', CHR ''b'']]"
  by (simp add: splitSearchValue_scan backslash_def comma_def)

text \<open>
  C3. A value without an unescaped comma yields exactly one alternative, its single-level
  unescape. \<open>a,b\<close> splits into \<open>a\<close> and \<open>b\<close>; \<open>a\<close>, backslash, comma, \<open>b\<close> yields the
  one alternative \<open>a,b\<close>; \<open>a,\<close> yields \<open>a\<close> and a final empty alternative.
\<close>

theorem C3_split_unescape:
  "(unescaped_commas s = 0 \<longrightarrow> splitSearchValue s = [spec_unescape s])
   \<and> splitSearchValue ''a,b'' = [''a'', ''b'']
   \<and> splitSearchValue [CHR ''a'', CHR 0x5C, CHR '','', CHR ''b''] = [''a,b'']
   \<and> splitSearchValue ''a,'' = [''a'', []]"
proof -
  have "unescaped_commas s = 0 \<longrightarrow> splitSearchValue s = [spec_unescape s]"
    using scan_no_comma [of s "[]"] by (simp add: unescaped_commas_def splitSearchValue_scan)
  moreover have "splitSearchValue ''a,b'' = [''a'', ''b'']"
    by (simp add: splitSearchValue_scan backslash_def comma_def)
  moreover have "splitSearchValue [CHR ''a'', CHR 0x5C, CHR '','', CHR ''b''] = [''a,b'']"
    by (simp add: splitSearchValue_scan backslash_def comma_def)
  moreover have "splitSearchValue ''a,'' = [''a'', []]"
    by (simp add: splitSearchValue_scan backslash_def comma_def)
  ultimately show ?thesis by blast
qed

theorem C3_split_unescape_witness:
  "unescaped_commas [CHR ''x'', CHR 0x5C, CHR '','', CHR 0x5C, CHR ''y''] = 0
   \<and> splitSearchValue [CHR ''x'', CHR 0x5C, CHR '','', CHR 0x5C, CHR ''y'']
       = [[CHR ''x'', CHR '','', CHR 0x5C, CHR ''y'']]"
  using C3_split_unescape [of "[CHR ''x'', CHR 0x5C, CHR '','', CHR 0x5C, CHR ''y'']"]
  by (simp add: unescaped_commas_def backslash_def comma_def)

section \<open>searchParamQuery and typeQueryWithConditions\<close>

text \<open>The splitter returns one alternative more than there are unescaped commas.\<close>

lemma length_splitSearchValue: "length (splitSearchValue s) = Suc (unescaped_commas s)"
  by (simp add: splitSearchValue_scan length_scan unescaped_commas_def)

lemma scan_comma: "scan cur (comma # r) = cur # scan [] r"
  by (cases r) simp_all

lemma scan_split_at:
  "commas_after False l = 0 \<Longrightarrow> l = [] \<or> last l \<noteq> backslash \<Longrightarrow>
   scan cur (l @ comma # r) = (cur @ spec_unescape l) # scan [] r"
proof (induction cur l rule: scan.induct)
  case (1 cur)
  show ?case by (simp add: scan_comma)
next
  case (2 cur a)
  then show ?case by (auto simp: scan_comma split: if_splits)
next
  case (3 cur a b cs)
  show ?case
  proof (cases "a = backslash \<and> b = comma")
    case True
    with 3 show ?thesis by (auto split: if_splits)
  next
    case False
    with "3.prems" have "a \<noteq> comma" by (auto split: if_splits)
    moreover from False "3.prems" have "commas_after False (b # cs) = 0"
      by (auto split: if_splits)
    ultimately show ?thesis using False "3.IH"(3) "3.prems" by (auto split: if_splits)
  qed
qed

lemma commas_after_one:
  "commas_after p v = 1 \<Longrightarrow>
   \<exists>l r. v = l @ comma # r \<and> commas_after p l = 0 \<and> commas_after False r = 0
         \<and> \<not> (if l = [] then p else last l = backslash)"
proof (induction v arbitrary: p)
  case Nil
  then show ?case by simp
next
  case (Cons x xs)
  show ?case
  proof (cases "x = comma \<and> \<not> p")
    case True
    with Cons.prems have "commas_after False xs = 0" by simp
    with True have "x # xs = [] @ comma # xs \<and> commas_after p [] = 0 \<and> commas_after False xs = 0
         \<and> \<not> (if ([]::string) = [] then p else last [] = backslash)" by simp
    then show ?thesis by blast
  next
    case False
    with Cons.prems have "commas_after (x = backslash) xs = 1" by (auto split: if_splits)
    from Cons.IH [OF this] obtain l r where
      h: "xs = l @ comma # r" "commas_after (x = backslash) l = 0" "commas_after False r = 0"
         "\<not> (if l = [] then x = backslash else last l = backslash)" by blast
    then have "x # xs = (x # l) @ comma # r \<and> commas_after p (x # l) = 0 \<and> commas_after False r = 0
         \<and> \<not> (if x # l = [] then p else last (x # l) = backslash)"
      using False by auto
    then show ?thesis by blast
  qed
qed

lemma split_one_comma:
  assumes "unescaped_commas v = 1"
  shows "\<exists>l r. v = l @ comma # r \<and> unescaped_commas l = 0 \<and> unescaped_commas r = 0
           \<and> splitSearchValue v = [spec_unescape l, spec_unescape r]"
proof -
  from assms obtain l r where
    h: "v = l @ comma # r" "commas_after False l = 0" "commas_after False r = 0"
       "\<not> (if l = [] then False else last l = backslash)"
    using commas_after_one [of False v] by (auto simp: unescaped_commas_def)
  then have "l = [] \<or> last l \<noteq> backslash" by (auto split: if_splits)
  with h have "scan [] v = spec_unescape l # scan [] r"
    using scan_split_at [of l "[]" r] by simp
  with h show ?thesis
    by (auto simp: splitSearchValue_scan scan_no_comma unescaped_commas_def)
qed

lemma searchParamQuery_single:
  "splitSearchValue w = [a] \<Longrightarrow> searchParamQuery tq sp w = compiledQueries tq sp a"
  by (simp add: searchParamQuery_def)

lemma searchParamQuery_two:
  "splitSearchValue w = [a, b] \<Longrightarrow>
   searchParamQuery tq sp w = should [compiledQueries tq sp a, compiledQueries tq sp b]"
  by (simp add: searchParamQuery_def)

text \<open>
  C9. A value with exactly one unescaped comma splits at that comma into two alternatives,
  the unescaped left and right parts, and \<^verbatim>\<open>searchParamQuery\<close> returns a
  \<^verbatim>\<open>{bool: {should: [...]}}\<close> node with exactly two entries in that order. Each entry
  is what \<^verbatim>\<open>searchParamQuery\<close> returns for a value whose only alternative it is.
\<close>

theorem C9_one_comma:
  assumes "unescaped_commas v = 1"
  shows "\<exists>l r. v = l @ comma # r \<and> unescaped_commas l = 0 \<and> unescaped_commas r = 0
           \<and> splitSearchValue v = [spec_unescape l, spec_unescape r]
           \<and> searchParamQuery tq sp v =
               JObj [(''bool'', JObj [(''should'',
                 JArr [compiledQueries tq sp (spec_unescape l),
                       compiledQueries tq sp (spec_unescape r)])])]
           \<and> (\<forall>w. splitSearchValue w = [spec_unescape l] \<longrightarrow>
                  searchParamQuery tq sp w = compiledQueries tq sp (spec_unescape l))
           \<and> (\<forall>w. splitSearchValue w = [spec_unescape r] \<longrightarrow>
                  searchParamQuery tq sp w = compiledQueries tq sp (spec_unescape r))"
proof -
  from split_one_comma [OF assms] obtain l r where
    h: "v = l @ comma # r" "unescaped_commas l = 0" "unescaped_commas r = 0"
       "splitSearchValue v = [spec_unescape l, spec_unescape r]" by blast
  have "searchParamQuery tq sp v =
          JObj [(''bool'', JObj [(''should'',
             JArr [compiledQueries tq sp (spec_unescape l),
                   compiledQueries tq sp (spec_unescape r)])])]"
    using searchParamQuery_two [OF h(4)] by (simp add: should_def)
  with h show ?thesis
    by (blast intro: searchParamQuery_single)
qed


theorem C9_one_comma_witness:
  "unescaped_commas ''Smith,Jones'' = 1
   \<and> searchParamQuery sample_typeQueries sample_name ''Smith,Jones'' =
       JObj [(''bool'', JObj [(''should'',
         JArr [JArr [JObj [(''match'', JStr ''name.family''), (''value'', JStr ''Smith'')]],
               JArr [JObj [(''match'', JStr ''name.family''), (''value'', JStr ''Jones'')]]])])]"
proof -
  have u: "unescaped_commas ''Smith,Jones'' = 1"
    by (simp add: unescaped_commas_def comma_def backslash_def)
  from C9_one_comma [OF u, of sample_typeQueries sample_name]
  obtain l r where h: "''Smith,Jones'' = l @ comma # r"
      "splitSearchValue ''Smith,Jones'' = [spec_unescape l, spec_unescape r]"
      "searchParamQuery sample_typeQueries sample_name ''Smith,Jones'' =
               JObj [(''bool'', JObj [(''should'',
                 JArr [compiledQueries sample_typeQueries sample_name (spec_unescape l),
                       compiledQueries sample_typeQueries sample_name (spec_unescape r)])])]"
    by blast
  have "splitSearchValue ''Smith,Jones'' = [''Smith'', ''Jones'']"
    by (simp add: splitSearchValue_scan comma_def backslash_def)
  with h(2) have "spec_unescape l = ''Smith''" "spec_unescape r = ''Jones''" by simp_all
  with h(3) u show ?thesis
    by (simp add: compiledQueries_def sample_name_def sample_family_def
          typeQueryWithConditions_def typeQuery_def sample_typeQueries_def sample_leaf_def)
qed


text \<open>
  One compiled descriptor and no unescaped comma: the result is the one-element array of
  the dispatcher's output on the unescaped value.
\<close>

lemma searchParamQuery_one_descriptor:
  "compiled sp = [d] \<Longrightarrow> unescaped_commas v = 0 \<Longrightarrow>
   searchParamQuery tq sp v = JArr [typeQueryWithConditions tq sp d (spec_unescape v)]"
  using scan_no_comma [of v "[]"]
  by (simp add: searchParamQuery_def splitSearchValue_scan unescaped_commas_def compiledQueries_def)

text \<open>
  C1. For the parameter \<open>name\<close> with its single compiled descriptor and the value
  \<open>Smith\<close>, which has no comma, \<^verbatim>\<open>searchParamQuery\<close> returns a one-element array
  holding the output of \<^verbatim>\<open>typeQueryWithConditions\<close>, not that output itself.
\<close>

theorem C1_single_descriptor_result_is_array:
  "compiled sample_name = [sample_family]
   \<and> unescaped_commas ''Smith'' = 0
   \<and> typeQueryWithConditions sample_typeQueries sample_name sample_family ''Smith''
       = JObj [(''match'', JStr ''name.family''), (''value'', JStr ''Smith'')]
   \<and> searchParamQuery sample_typeQueries sample_name ''Smith''
       = JArr [JObj [(''match'', JStr ''name.family''), (''value'', JStr ''Smith'')]]
   \<and> searchParamQuery sample_typeQueries sample_name ''Smith''
       \<noteq> typeQueryWithConditions sample_typeQueries sample_name sample_family ''Smith''"
  by (simp add: searchParamQuery_def splitSearchValue_scan compiledQueries_def
        unescaped_commas_def comma_def backslash_def sample_name_def sample_family_def
        typeQueryWithConditions_def typeQuery_def sample_typeQueries_def sample_leaf_def)

text \<open>
  C6. Whatever the declared type, a descriptor with a condition yields
  \<^verbatim>\<open>{bool: {must: [typeQuery, {multi_match: {fields: [f, f + ".*"], query: m, lenient: true}}]}}\<close>
  where \<open>f\<close> and \<open>m\<close> are components 0 and 2 of the condition and \<open>typeQuery\<close> is
  the output of the constructor selected by the type; without a condition that output is
  returned as it is. The six types select their constructor, every other type the string
  constructor.
\<close>

theorem C6_condition_wrapper:
  "(condition c = Some (fieldX, operator, matchVal) \<longrightarrow>
      typeQueryWithConditions tq sp c v =
        JObj [(''bool'', JObj [(''must'',
          JArr [typeQuery tq sp c v,
                JObj [(''multi_match'',
                       JObj [(''fields'', JArr [JStr fieldX, JStr (fieldX @ ''.*'')]),
                             (''query'', JStr matchVal),
                             (''lenient'', JBool True)])]])])])
   \<and> (condition c = None \<longrightarrow> typeQueryWithConditions tq sp c v = typeQuery tq sp c v)
   \<and> (type sp = ''string'' \<longrightarrow> typeQuery tq sp c v = stringQuery tq c v)
   \<and> (type sp = ''date'' \<longrightarrow> typeQuery tq sp c v = dateQuery tq c v)
   \<and> (type sp = ''token'' \<longrightarrow> typeQuery tq sp c v = tokenQuery tq c v)
   \<and> (type sp = ''number'' \<longrightarrow> typeQuery tq sp c v = numberQuery tq c v)
   \<and> (type sp = ''quantity'' \<longrightarrow> typeQuery tq sp c v = quantityQuery tq c v)
   \<and> (type sp = ''reference'' \<longrightarrow> typeQuery tq sp c v = referenceQuery tq c v)
   \<and> (type sp \<notin> {''date'', ''token'', ''number'', ''quantity'', ''reference''} \<longrightarrow>
        typeQuery tq sp c v = stringQuery tq c v)"
  by (simp add: typeQueryWithConditions_def multi_match_def typeQuery_def)

theorem C6_condition_wrapper_witness:
  "condition sample_phone = Some (''telecom.system'', ''='', ''phone'')
   \<and> type \<lparr> name = ''phone'', type = ''token'', compiled = [sample_phone] \<rparr> = ''token''
   \<and> typeQueryWithConditions sample_typeQueries
         \<lparr> name = ''phone'', type = ''token'', compiled = [sample_phone] \<rparr> sample_phone ''555''
       = JObj [(''bool'', JObj [(''must'',
          JArr [JObj [(''term'', JStr ''telecom.value''), (''value'', JStr ''555'')],
                JObj [(''multi_match'',
                       JObj [(''fields'', JArr [JStr ''telecom.system'', JStr ''telecom.system.*'']),
                             (''query'', JStr ''phone''),
                             (''lenient'', JBool True)])]])])]
   \<and> condition sample_family = None
   \<and> typeQueryWithConditions sample_typeQueries sample_name sample_family ''Smith''
       = JObj [(''match'', JStr ''name.family''), (''value'', JStr ''Smith'')]"
  using C6_condition_wrapper [of sample_phone "''telecom.system''" "''=''" "''phone''"
          sample_typeQueries "\<lparr> name = ''phone'', type = ''token'', compiled = [sample_phone] \<rparr>" "''555''"]
        C6_condition_wrapper [of sample_family "''x''" "''=''" "''y''"
          sample_typeQueries sample_name "''Smith''"]
  by (simp add: sample_phone_def sample_family_def sample_name_def sample_typeQueries_def
        sample_leaf_def)

section \<open>Properties of normalizeQueryParams\<close>

lemma allStrings_eq:
  "allStrings xs = (if list_all isString xs then Some [s. JStr s \<leftarrow> xs] else None)"
  by (induction xs rule: allStrings.induct) simp_all

lemma stringsOf_map_JStr: "stringsOf (JArr (map JStr ss)) = ss"
  by (induction ss) simp_all

lemma list_all_isString_map_JStr: "list_all isString (map JStr ss)"
  by (induction ss) simp_all

lemma isString_iff: "isString x \<longleftrightarrow> (\<exists>s. x = JStr s)"
  by (cases x) simp_all

lemma list_all_isString_iff: "list_all isString xs \<longleftrightarrow> (\<exists>ss. xs = map JStr ss)"
proof
  assume "list_all isString xs"
  then have "xs = map JStr [s. JStr s \<leftarrow> xs]"
    by (induction xs) (auto simp: isString_iff)
  then show "\<exists>ss. xs = map JStr ss" ..
next
  assume "\<exists>ss. xs = map JStr ss"
  then show "list_all isString xs" by (auto simp: list_all_isString_map_JStr)
qed

lemma stringOrStringArray_iff:
  "stringOrStringArray v \<longleftrightarrow> (\<exists>s. v = JStr s) \<or> (\<exists>ss. v = JArr (map JStr ss))"
  by (cases v) (simp_all add: list_all_isString_iff)

lemma update_fresh: "k \<notin> fst ` set al \<Longrightarrow> AList.update k v al = al @ [(k, v)]"
  by (induction al) auto

lemma normalize_forEach_step:
  "normalize_forEach ((k, v) # es) acc =
     (if stringOrStringArray v then normalize_forEach es (setProperty k (stringsOf v) acc)
      else Inl (InvalidSearchParameterError (invalidParameterMessage k)))"
  by (cases v) (simp_all add: allStrings_eq)

lemma normalize_forEach_bad:
  "find (\<lambda>e. \<not> stringOrStringArray (snd e)) es = Some (k, v) \<Longrightarrow>
   normalize_forEach es acc = Inl (InvalidSearchParameterError (invalidParameterMessage k))"
proof (induction es arbitrary: acc)
  case Nil
  then show ?case by simp
next
  case (Cons e es)
  obtain k' v' where e: "e = (k', v')" by (cases e)
  show ?case using Cons unfolding e
    by (auto simp: normalize_forEach_step simp del: normalize_forEach.simps split: if_splits)
qed

lemma normalize_forEach_good:
  "\<forall>e\<in>set es. stringOrStringArray (snd e) \<Longrightarrow> distinct (map fst es) \<Longrightarrow>
   fst ` set es \<inter> fst ` set acc = {} \<Longrightarrow>
   normalize_forEach es acc
     = Inr (acc @ map (\<lambda>e. (fst e, stringsOf (snd e)))
                      (filter (\<lambda>e. fst e \<noteq> ''__proto__'') es))"
proof (induction es arbitrary: acc)
  case Nil
  then show ?case by simp
next
  case (Cons e es)
  obtain k v where e: "e = (k, v)" by (cases e)
  from Cons.prems e have ok: "stringOrStringArray v" by simp
  show ?case
  proof (cases "k = ''__proto__''")
    case True
    have "normalize_forEach es acc
            = Inr (acc @ map (\<lambda>e. (fst e, stringsOf (snd e)))
                             (filter (\<lambda>e. fst e \<noteq> ''__proto__'') es))"
      using Cons.prems by (intro Cons.IH) auto
    then show ?thesis unfolding e using ok True
      by (simp add: normalize_forEach_step setProperty_def del: normalize_forEach.simps)
  next
    case False
    from Cons.prems e have fresh: "k \<notin> fst ` set acc" by auto
    have upd: "setProperty k (stringsOf v) acc = acc @ [(k, stringsOf v)]"
      using fresh False by (simp add: setProperty_def update_fresh)
    have disj: "fst ` set es \<inter> fst ` set (acc @ [(k, stringsOf v)]) = {}"
      using Cons.prems e by auto
    have "normalize_forEach es (acc @ [(k, stringsOf v)])
            = Inr ((acc @ [(k, stringsOf v)]) @ map (\<lambda>e. (fst e, stringsOf (snd e)))
                             (filter (\<lambda>e. fst e \<noteq> ''__proto__'') es))"
      using Cons.prems by (intro Cons.IH disj) simp_all
    then show ?thesis unfolding e using ok upd False
      by (simp add: normalize_forEach_step del: normalize_forEach.simps)
  qed
qed

text \<open>
  On a request object with well-shaped values, the normalized object holds every entry
  but \<^verbatim>\<open>__proto__\<close>, in order, each with the strings of its value.
\<close>

lemma normalize_good:
  "\<forall>e\<in>set qp. stringOrStringArray (snd e) \<Longrightarrow> distinct (map fst qp) \<Longrightarrow>
   normalizeQueryParams qp
     = Inr (map (\<lambda>e. (fst e, stringsOf (snd e))) (filter (\<lambda>e. fst e \<noteq> ''__proto__'') qp))"
  using normalize_forEach_good [of qp "[]"] by (simp add: normalizeQueryParams_def)

lemma find_bad:
  "\<exists>e\<in>set es. P e \<Longrightarrow> \<exists>k v. find P es = Some (k, v) \<and> (k, v) \<in> set es \<and> P (k, v)"
  by (induction es) auto

lemma normalize_bad:
  assumes "\<exists>e\<in>set qp. \<not> stringOrStringArray (snd e)"
  shows "\<exists>k v. (k, v) \<in> set qp \<and> \<not> stringOrStringArray v \<and>
           find (\<lambda>e. \<not> stringOrStringArray (snd e)) qp = Some (k, v) \<and>
           normalizeQueryParams qp = Inl (InvalidSearchParameterError (invalidParameterMessage k))"
proof -
  from find_bad [OF assms] obtain k v where
    h: "find (\<lambda>e. \<not> stringOrStringArray (snd e)) qp = Some (k, v)" "(k, v) \<in> set qp"
       "\<not> stringOrStringArray v" by auto
  then show ?thesis
    using normalize_forEach_bad [OF h(1), of "[]"] by (auto simp: normalizeQueryParams_def)
qed

lemma normalize_Inr_all_ok:
  "normalizeQueryParams qp = Inr n \<Longrightarrow> \<forall>e\<in>set qp. stringOrStringArray (snd e)"
  using normalize_bad [of qp] by auto

lemma map_of_normalized:
  "distinct (map fst qp) \<Longrightarrow> (k, v) \<in> set qp \<Longrightarrow> k \<noteq> ''__proto__'' \<Longrightarrow>
   map_of (map (\<lambda>e. (fst e, stringsOf (snd e))) (filter (\<lambda>e. fst e \<noteq> ''__proto__'') qp)) k
     = Some (stringsOf v)"
  by (induction qp) (auto simp: rev_image_eqI)

text \<open>
  C4. The entry named \<^verbatim>\<open>__proto__\<close> is not mapped to a sequence: for the request
  \<^verbatim>\<open>{"__proto__": "Smith"}\<close> (an own key, as a JSON parser creates it)
  \<^verbatim>\<open>normalizeQueryParams\<close> returns an object without entries, and an array of strings
  under that name is not passed through either.
\<close>

theorem C4_proto_entry_is_dropped:
  "normalizeQueryParams [(''__proto__'', JStr ''Smith'')] = Inr []
   \<and> normalizeQueryParams [(''name'', JStr ''Smith''), (''__proto__'', JArr [JStr ''a'', JStr ''b''])]
       = Inr [(''name'', [''Smith''])]"
  by (simp add: normalizeQueryParams_def setProperty_def)

text \<open>
  C2, for requests whose values are all strings or arrays of strings. Normalization
  returns, and every entry whose name is not \<^verbatim>\<open>__proto__\<close> and whose value is not the
  empty array is normalized to a non-empty sequence of strings, the string itself or the
  strings of the array in their order; and the splitter returns at least one alternative
  for every string.
\<close>

theorem C2_nonempty_sequences:
  assumes "distinct (map fst qp)" and "\<forall>e\<in>set qp. stringOrStringArray (snd e)"
  shows "(\<exists>n. normalizeQueryParams qp = Inr n
            \<and> (\<forall>k v. (k, v) \<in> set qp \<and> k \<noteq> ''__proto__'' \<and> v \<noteq> JArr [] \<longrightarrow>
                  (\<exists>vs. map_of n k = Some vs \<and> vs \<noteq> []
                     \<and> ((\<exists>s. v = JStr s \<and> vs = [s]) \<or> v = JArr (map JStr vs)))))
         \<and> (\<forall>s. splitSearchValue s \<noteq> [] \<and> 1 \<le> length (splitSearchValue s))"
proof -
  let ?n = "map (\<lambda>e. (fst e, stringsOf (snd e))) (filter (\<lambda>e. fst e \<noteq> ''__proto__'') qp)"
  have n: "normalizeQueryParams qp = Inr ?n"
    using assms(2,1) by (rule normalize_good)
  have "\<exists>vs. map_of ?n k = Some vs \<and> vs \<noteq> []
                     \<and> ((\<exists>s. v = JStr s \<and> vs = [s]) \<or> v = JArr (map JStr vs))"
    if h: "(k, v) \<in> set qp" "k \<noteq> ''__proto__''" "v \<noteq> JArr []" for k v
  proof -
    have m: "map_of ?n k = Some (stringsOf v)"
      using assms(1) h(1,2) by (rule map_of_normalized)
    from assms(2) h(1) have "stringOrStringArray v" by auto
    then consider s where "v = JStr s" | ss where "v = JArr (map JStr ss)"
      by (auto simp: stringOrStringArray_iff)
    then have "stringsOf v \<noteq> []
        \<and> ((\<exists>s. v = JStr s \<and> stringsOf v = [s]) \<or> v = JArr (map JStr (stringsOf v)))"
    proof cases
      case 1
      then show ?thesis by simp
    next
      case 2
      with h(3) have "ss \<noteq> []" by auto
      with 2 show ?thesis by (simp only: stringsOf_map_JStr) simp
    qed
    with m show ?thesis by blast
  qed
  with n have "\<exists>n. normalizeQueryParams qp = Inr n
            \<and> (\<forall>k v. (k, v) \<in> set qp \<and> k \<noteq> ''__proto__'' \<and> v \<noteq> JArr [] \<longrightarrow>
                  (\<exists>vs. map_of n k = Some vs \<and> vs \<noteq> []
                     \<and> ((\<exists>s. v = JStr s \<and> vs = [s]) \<or> v = JArr (map JStr vs))))"
    by blast
  moreover have "\<forall>s. splitSearchValue s \<noteq> [] \<and> 1 \<le> length (splitSearchValue s)"
    by (simp add: splitSearchValue_scan scan_nonempty length_scan)
  ultimately show ?thesis by blast
qed

theorem C2_nonempty_sequences_witness:
  "distinct (map fst [(''name'', JStr []), (''given'', JArr [JStr ''A'', JStr ''B''])])
   \<and> normalizeQueryParams [(''name'', JStr []), (''given'', JArr [JStr ''A'', JStr ''B''])]
       = Inr [(''name'', [[]]), (''given'', [''A'', ''B''])]
   \<and> (\<exists>vs. map_of [(''name'', [[]]), (''given'', [''A'', ''B''])] ''given'' = Some vs \<and> vs \<noteq> [])
   \<and> (\<exists>vs. map_of [(''name'', [[]]), (''given'', [''A'', ''B''])] ''name'' = Some vs \<and> vs \<noteq> [])
   \<and> splitSearchValue [] = [[]]"
proof -
  let ?qp = "[(''name'', JStr []), (''given'', JArr [JStr ''A'', JStr ''B''])]"
  have d: "distinct (map fst ?qp)" by simp
  have ok: "\<forall>e\<in>set ?qp. stringOrStringArray (snd e)" by simp
  have n: "normalizeQueryParams ?qp = Inr [(''name'', [[]]), (''given'', [''A'', ''B''])]"
    by (simp add: normalizeQueryParams_def setProperty_def)
  from C2_nonempty_sequences [OF d ok] n have
    "\<forall>k v. (k, v) \<in> set ?qp \<and> k \<noteq> ''__proto__'' \<and> v \<noteq> JArr [] \<longrightarrow>
        (\<exists>vs. map_of [(''name'', [[]]), (''given'', [''A'', ''B''])] k = Some vs \<and> vs \<noteq> []
            \<and> ((\<exists>s. v = JStr s \<and> vs = [s]) \<or> v = JArr (map JStr vs)))"
    by auto
  then have "\<exists>vs. map_of [(''name'', [[]]), (''given'', [''A'', ''B''])] ''given'' = Some vs \<and> vs \<noteq> []"
    by simp
  moreover have "splitSearchValue [] = [[]]"
    by (simp add: splitSearchValue_scan)
  ultimately show ?thesis using n by simp
qed

text \<open>
  C2 as stated fails: an entry with the non-empty value \<^verbatim>\<open>{"key": "Smith"}\<close> yields no
  sequence, normalization throws. An entry named \<^verbatim>\<open>__proto__\<close> yields none either.
\<close>

theorem C2_counterexample:
  "(''name'', JObj [(''key'', JStr ''Smith'')]) \<in> set [(''name'', JObj [(''key'', JStr ''Smith'')])]
   \<and> JObj [(''key'', JStr ''Smith'')] \<noteq> JObj []
   \<and> JObj [(''key'', JStr ''Smith'')] \<noteq> JArr []
   \<and> normalizeQueryParams [(''name'', JObj [(''key'', JStr ''Smith'')])]
       = Inl (InvalidSearchParameterError
                (''Invalid search parameter: '' @ [CHR 0x27] @ ''name'' @ [CHR 0x27]))
   \<and> normalizeQueryParams [(''__proto__'', JStr ''x'')] = Inr []"
  by (simp add: normalizeQueryParams_def invalidParameterMessage_def setProperty_def)

section \<open>The order of Object.entries\<close>

lemma insort_key_map_value:
  "insort_key (\<lambda>e. f (fst e)) (fst x, g (snd x)) (map (\<lambda>e. (fst e, g (snd e))) ys)
   = map (\<lambda>e. (fst e, g (snd e))) (insort_key (\<lambda>e. f (fst e)) x ys)"
  by (induction ys) simp_all

lemma sort_key_map_value:
  "sort_key (\<lambda>e. f (fst e)) (map (\<lambda>e. (fst e, g (snd e))) xs)
   = map (\<lambda>e. (fst e, g (snd e))) (sort_key (\<lambda>e. f (fst e)) xs)"
  by (induction xs) (simp_all add: insort_key_map_value)

lemma Object_entries_map_value:
  "Object_entries (map (\<lambda>e. (fst e, g (snd e))) xs)
   = map (\<lambda>e. (fst e, g (snd e))) (Object_entries xs)"
  using sort_key_map_value [of numericValue g "filter (\<lambda>e. isArrayIndex (fst e)) xs"]
  by (simp add: Object_entries_def filter_map comp_def)

lemma Object_entries_filter:
  "Object_entries (filter P xs) = filter P (Object_entries xs)"
  by (simp add: Object_entries_def filter_sort conj_commute)

lemma set_Object_entries: "set (Object_entries xs) = set xs"
  by (auto simp: Object_entries_def)

section \<open>The request compiler\<close>

lemma flatMap_cong:
  "\<forall>e\<in>set es. reg rt (fst e) = reg' rt (fst e) \<Longrightarrow>
   searchRequest_flatMap tq reg rt es = searchRequest_flatMap tq reg' rt es"
  by (induction es) (auto split: option.splits sum.splits)

lemma flatMap_unknown:
  "find (\<lambda>e. reg rt (fst e) = None) es = Some (p, vs) \<Longrightarrow>
   searchRequest_flatMap tq reg rt es
     = Inl (InvalidSearchParameterError (unknownParameterMessage p rt))"
  by (induction es) (auto split: option.splits sum.splits if_splits)

lemma flatMap_Inl:
  "searchRequest_flatMap tq reg rt es = Inl err \<Longrightarrow>
   \<exists>e\<in>set es. reg rt (fst e) = None
      \<and> err = InvalidSearchParameterError (unknownParameterMessage (fst e) rt)"
  by (induction es) (auto split: option.splits sum.splits)

lemma flatMap_Inr:
  "searchRequest_flatMap tq reg rt es = Inr qs \<Longrightarrow>
   list_all2 (\<lambda>pv q. \<exists>sp. reg rt (fst pv) = Some sp \<and> q = searchParamQuery tq sp (snd pv))
     (concat (map (\<lambda>e. map (Pair (fst e)) (snd e)) es)) qs"
proof (induction es arbitrary: qs)
  case Nil
  then show ?case by simp
next
  case (Cons e es)
  obtain p vs where e: "e = (p, vs)" by (cases e)
  from Cons.prems obtain sp qs' where
    h: "reg rt p = Some sp" "searchRequest_flatMap tq reg rt es = Inr qs'"
       "qs = map (searchParamQuery tq sp) vs @ qs'"
    unfolding e by (auto split: option.splits sum.splits)
  have "list_all2 (\<lambda>pv q. \<exists>sp. reg rt (fst pv) = Some sp \<and> q = searchParamQuery tq sp (snd pv))
          (map (Pair p) vs) (map (searchParamQuery tq sp) vs)"
    using h(1) by (simp add: list_all2_map1 list_all2_map2 list_all2_same)
  with Cons.IH [OF h(2)] show ?case
    unfolding e h(3) by (simp add: list_all2_appendI)
qed

lemma filter_normalized:
  "filter (\<lambda>(searchParameter, searchValues). searchParameter \<notin> set ns)
     (map (\<lambda>e. (fst e, stringsOf (snd e))) es)
   = map (\<lambda>e. (fst e, stringsOf (snd e))) (filter (\<lambda>e. fst e \<notin> set ns) es)"
  by (induction es) auto

lemma searchRequestQuery_good:
  assumes "\<forall>e\<in>set (queryParams req). stringOrStringArray (snd e)"
    and "distinct (map fst (queryParams req))"
  shows "searchRequestQuery tq ns reg req =
     searchRequest_flatMap tq reg (resourceType req)
       (map (\<lambda>e. (fst e, stringsOf (snd e)))
          (filter (\<lambda>e. fst e \<notin> set ns \<and> fst e \<noteq> ''__proto__'')
             (Object_entries (queryParams req))))"
proof -
  have "Object_entries (map (\<lambda>e. (fst e, stringsOf (snd e)))
            (filter (\<lambda>e. fst e \<noteq> ''__proto__'') (queryParams req)))
        = map (\<lambda>e. (fst e, stringsOf (snd e)))
            (filter (\<lambda>e. fst e \<noteq> ''__proto__'') (Object_entries (queryParams req)))"
    by (simp only: Object_entries_map_value Object_entries_filter)
  then show ?thesis
    by (simp add: searchRequestQuery_def normalize_good [OF assms] filter_normalized
          conj_commute)
qed

lemma find_map_key:
  "find (\<lambda>e. P (fst e)) (map (\<lambda>e. (fst e, f (snd e))) es)
   = map_option (\<lambda>e. (fst e, f (snd e))) (find (\<lambda>e. P (fst e)) es)"
  by (induction es) auto

lemma find_filter_conj:
  "find P (filter Q es) = find (\<lambda>e. Q e \<and> P e) es"
  by (induction es) auto

lemma unknownParameterMessage_mentions:
  "sublist p (unknownParameterMessage p rt)" "sublist rt (unknownParameterMessage p rt)"
proof -
  have "unknownParameterMessage p rt
          = (''Invalid search parameter '' @ [CHR 0x27]) @ p
              @ ([CHR 0x27] @ '' for resource type '' @ rt)"
    by (simp add: unknownParameterMessage_def)
  then show "sublist p (unknownParameterMessage p rt)"
    by (simp only: sublist_appendI)
  have "unknownParameterMessage p rt
          = (''Invalid search parameter '' @ [CHR 0x27] @ p @ [CHR 0x27]
              @ '' for resource type '') @ rt"
    by (simp add: unknownParameterMessage_def)
  then show "sublist rt (unknownParameterMessage p rt)"
    by (simp only: sublist_append_leftI)
qed

lemma build_Inl:
  "searchRequestQuery tq ns reg req = Inl err \<Longrightarrow>
   buildQueryForAllSearchParameters tq ns reg req additionalFilters = Inl err"
  by (simp add: buildQueryForAllSearchParameters_def)

lemma searchRequestQuery_cong:
  assumes "\<forall>p. p \<notin> set ns \<longrightarrow> reg' (resourceType req) p = reg (resourceType req) p"
  shows "searchRequestQuery tq ns reg req = searchRequestQuery tq ns reg' req"
proof (cases "normalizeQueryParams (queryParams req)")
  case (Inl e)
  then show ?thesis by (simp add: searchRequestQuery_def)
next
  case (Inr n)
  have "searchRequest_flatMap tq reg (resourceType req)
          (filter (\<lambda>(searchParameter, searchValues). searchParameter \<notin> set ns)
             (Object_entries n))
        = searchRequest_flatMap tq reg' (resourceType req)
          (filter (\<lambda>(searchParameter, searchValues). searchParameter \<notin> set ns)
             (Object_entries n))"
    using assms by (intro flatMap_cong) auto
  with Inr show ?thesis by (simp add: searchRequestQuery_def)
qed

lemma searchRequestQuery_Inl:
  assumes "searchRequestQuery tq ns reg req = Inl err"
  shows "normalizeQueryParams (queryParams req) = Inl err
         \<or> (\<exists>p. p \<notin> set ns \<and> reg (resourceType req) p = None
               \<and> err = InvalidSearchParameterError (unknownParameterMessage p (resourceType req)))"
proof (cases "normalizeQueryParams (queryParams req)")
  case (Inl e)
  with assms show ?thesis by (simp add: searchRequestQuery_def)
next
  case (Inr n)
  with assms have "searchRequest_flatMap tq reg (resourceType req)
          (filter (\<lambda>(searchParameter, searchValues). searchParameter \<notin> set ns)
             (Object_entries n)) = Inl err"
    by (simp add: searchRequestQuery_def)
  from flatMap_Inl [OF this] show ?thesis by auto
qed

text \<open>
  When \<^verbatim>\<open>searchRequestQuery\<close> returns for a request object, its result has one entry
  per pair of a searchable parameter other than \<^verbatim>\<open>__proto__\<close> and one of its values,
  in the order of \<^verbatim>\<open>Object.entries\<close>.
\<close>

lemma searchRequestQuery_Inr:
  assumes "searchRequestQuery tq ns reg req = Inr must"
    and "distinct (map fst (queryParams req))"
  shows "list_all2 (\<lambda>pv q. \<exists>sp. reg (resourceType req) (fst pv) = Some sp
                              \<and> q = searchParamQuery tq sp (snd pv))
           (parameterValuePairs ns
              (filter (\<lambda>e. fst e \<noteq> ''__proto__'') (Object_entries (queryParams req)))) must"
proof -
  from assms(1) obtain n where "normalizeQueryParams (queryParams req) = Inr n"
    by (cases "normalizeQueryParams (queryParams req)") (simp_all add: searchRequestQuery_def)
  then have ok: "\<forall>e\<in>set (queryParams req). stringOrStringArray (snd e)"
    by (rule normalize_Inr_all_ok)
  have "searchRequest_flatMap tq reg (resourceType req)
          (map (\<lambda>e. (fst e, stringsOf (snd e)))
             (filter (\<lambda>e. fst e \<notin> set ns \<and> fst e \<noteq> ''__proto__'')
                (Object_entries (queryParams req)))) = Inr must"
    using assms(1) by (simp only: searchRequestQuery_good [OF ok assms(2)])
  from flatMap_Inr [OF this] show ?thesis
    by (simp add: parameterValuePairs_def comp_def conj_commute)
qed

text \<open>
  C5, for request objects. When every value is a string or an array of strings and some
  searchable parameter other than \<^verbatim>\<open>__proto__\<close> is unknown to the registry for the
  request's resource type, the compilation throws \<^verbatim>\<open>InvalidSearchParameterError\<close> for
  the first such parameter in the order of \<^verbatim>\<open>Object.entries\<close>, with a message that
  contains the parameter name and the resource type; no query is returned. When some value
  is neither a string nor an array of strings, the compilation throws the normalizer's
  error for the first such entry instead.
\<close>

theorem C5_unknown_parameter:
  assumes "distinct (map fst (queryParams req))"
  shows "((\<forall>e\<in>set (queryParams req). stringOrStringArray (snd e))
          \<and> (\<exists>e\<in>set (queryParams req). fst e \<notin> set ns \<and> fst e \<noteq> ''__proto__''
                \<and> reg (resourceType req) (fst e) = None) \<longrightarrow>
          (\<exists>p v. find (\<lambda>e. fst e \<notin> set ns \<and> fst e \<noteq> ''__proto__''
                            \<and> reg (resourceType req) (fst e) = None)
                     (Object_entries (queryParams req)) = Some (p, v)
             \<and> buildQueryForAllSearchParameters tq ns reg req additionalFilters
                 = Inl (InvalidSearchParameterError
                          (''Invalid search parameter '' @ [CHR 0x27] @ p @ [CHR 0x27]
                             @ '' for resource type '' @ resourceType req))
             \<and> sublist p (''Invalid search parameter '' @ [CHR 0x27] @ p @ [CHR 0x27]
                             @ '' for resource type '' @ resourceType req)
             \<and> sublist (resourceType req)
                  (''Invalid search parameter '' @ [CHR 0x27] @ p @ [CHR 0x27]
                             @ '' for resource type '' @ resourceType req)))
       \<and> ((\<exists>e\<in>set (queryParams req). \<not> stringOrStringArray (snd e)) \<longrightarrow>
          (\<exists>k v. find (\<lambda>e. \<not> stringOrStringArray (snd e)) (queryParams req) = Some (k, v)
             \<and> buildQueryForAllSearchParameters tq ns reg req additionalFilters
                 = Inl (InvalidSearchParameterError
                          (''Invalid search parameter: '' @ [CHR 0x27] @ k @ [CHR 0x27]))))"
proof -
  let ?rt = "resourceType req"
  let ?P = "\<lambda>e. fst e \<notin> set ns \<and> fst e \<noteq> ''__proto__'' \<and> reg ?rt (fst e) = None"
  let ?es = "map (\<lambda>e. (fst e, stringsOf (snd e)))
               (filter (\<lambda>e. fst e \<notin> set ns \<and> fst e \<noteq> ''__proto__'')
                  (Object_entries (queryParams req)))"
  have a: "\<exists>p v. find ?P (Object_entries (queryParams req)) = Some (p, v)
             \<and> buildQueryForAllSearchParameters tq ns reg req additionalFilters
                 = Inl (InvalidSearchParameterError (unknownParameterMessage p ?rt))
             \<and> sublist p (unknownParameterMessage p ?rt)
             \<and> sublist ?rt (unknownParameterMessage p ?rt)"
    if ok: "\<forall>e\<in>set (queryParams req). stringOrStringArray (snd e)"
      and ex: "\<exists>e\<in>set (queryParams req). ?P e"
  proof -
    from ex have "\<exists>e\<in>set (Object_entries (queryParams req)). ?P e"
      by (simp only: set_Object_entries)
    from find_bad [OF this] obtain p v where
      f: "find ?P (Object_entries (queryParams req)) = Some (p, v)" by blast
    have "find (\<lambda>e. reg ?rt (fst e) = None) ?es = Some (p, stringsOf v)"
      using f find_map_key [of "\<lambda>k. reg ?rt k = None" stringsOf]
      by (simp add: find_filter_conj conj_assoc)
    then have "searchRequest_flatMap tq reg ?rt ?es
                 = Inl (InvalidSearchParameterError (unknownParameterMessage p ?rt))"
      by (rule flatMap_unknown)
    then have "searchRequestQuery tq ns reg req
                 = Inl (InvalidSearchParameterError (unknownParameterMessage p ?rt))"
      by (simp only: searchRequestQuery_good [OF ok assms])
    then have "buildQueryForAllSearchParameters tq ns reg req additionalFilters
                 = Inl (InvalidSearchParameterError (unknownParameterMessage p ?rt))"
      by (rule build_Inl)
    with f show ?thesis
      using unknownParameterMessage_mentions by blast
  qed
  have b: "\<exists>k v. find (\<lambda>e. \<not> stringOrStringArray (snd e)) (queryParams req) = Some (k, v)
             \<and> buildQueryForAllSearchParameters tq ns reg req additionalFilters
                 = Inl (InvalidSearchParameterError (invalidParameterMessage k))"
    if bad: "\<exists>e\<in>set (queryParams req). \<not> stringOrStringArray (snd e)"
  proof -
    from normalize_bad [OF bad] obtain k v where
      h: "find (\<lambda>e. \<not> stringOrStringArray (snd e)) (queryParams req) = Some (k, v)"
         "normalizeQueryParams (queryParams req)
            = Inl (InvalidSearchParameterError (invalidParameterMessage k))"
      by blast
    from h(2) have "searchRequestQuery tq ns reg req
                      = Inl (InvalidSearchParameterError (invalidParameterMessage k))"
      by (simp add: searchRequestQuery_def)
    then have "buildQueryForAllSearchParameters tq ns reg req additionalFilters
                 = Inl (InvalidSearchParameterError (invalidParameterMessage k))"
      by (rule build_Inl)
    with h(1) show ?thesis by blast
  qed
  have m1: "\<And>p. unknownParameterMessage p ?rt
              = ''Invalid search parameter '' @ [CHR 0x27] @ p @ [CHR 0x27]
                             @ '' for resource type '' @ resourceType req"
    by (simp add: unknownParameterMessage_def)
  have m2: "\<And>k. invalidParameterMessage k
              = ''Invalid search parameter: '' @ [CHR 0x27] @ k @ [CHR 0x27]"
    by (simp add: invalidParameterMessage_def)
  from a b show ?thesis
    unfolding m1 m2 by blast
qed

theorem C5_unknown_parameter_witness:
  "distinct (map fst [(''name'', JStr ''Smith''), (''foo'', JStr ''1'')])
   \<and> sample_registry ''Patient'' ''foo'' = None
   \<and> buildQueryForAllSearchParameters sample_typeQueries [''_count''] sample_registry
         \<lparr> resourceType = ''Patient'',
           queryParams = [(''name'', JStr ''Smith''), (''foo'', JStr ''1'')] \<rparr> []
       = Inl (InvalidSearchParameterError
                (''Invalid search parameter '' @ [CHR 0x27] @ ''foo'' @ [CHR 0x27]
                   @ '' for resource type Patient''))
   \<and> buildQueryForAllSearchParameters sample_typeQueries [''_count''] sample_registry
         \<lparr> resourceType = ''Patient'',
           queryParams = [(''name'', JStr ''Smith''), (''bar'', JNum 1), (''baz'', JNull)] \<rparr> []
       = Inl (InvalidSearchParameterError
                (''Invalid search parameter: '' @ [CHR 0x27] @ ''bar'' @ [CHR 0x27]))"
proof -
  have a: "buildQueryForAllSearchParameters sample_typeQueries [''_count''] sample_registry
         \<lparr> resourceType = ''Patient'',
           queryParams = [(''name'', JStr ''Smith''), (''foo'', JStr ''1'')] \<rparr> []
       = Inl (InvalidSearchParameterError
                (''Invalid search parameter '' @ [CHR 0x27] @ ''foo'' @ [CHR 0x27]
                   @ '' for resource type Patient''))"
    using C5_unknown_parameter
            [where req = "\<lparr> resourceType = ''Patient'',
                 queryParams = [(''name'', JStr ''Smith''), (''foo'', JStr ''1'')] \<rparr>"
               and ns = "[''_count'']" and reg = sample_registry
               and tq = sample_typeQueries and additionalFilters = "[]"]
    by (simp add: sample_registry_def Object_entries_def isArrayIndex_def isDigit_def)
  have b: "buildQueryForAllSearchParameters sample_typeQueries [''_count''] sample_registry
         \<lparr> resourceType = ''Patient'',
           queryParams = [(''name'', JStr ''Smith''), (''bar'', JNum 1), (''baz'', JNull)] \<rparr> []
       = Inl (InvalidSearchParameterError
                (''Invalid search parameter: '' @ [CHR 0x27] @ ''bar'' @ [CHR 0x27]))"
    using C5_unknown_parameter
            [where req = "\<lparr> resourceType = ''Patient'',
                 queryParams = [(''name'', JStr ''Smith''), (''bar'', JNum 1), (''baz'', JNull)] \<rparr>"
               and ns = "[''_count'']" and reg = sample_registry
               and tq = sample_typeQueries and additionalFilters = "[]"]
    by simp
  have "sample_registry ''Patient'' ''foo'' = None"
    by (simp add: sample_registry_def)
  with a b show ?thesis by simp
qed

text \<open>
  C5 as stated fails: normalization runs over all entries before any registry lookup.
  With the unknown searchable parameter \<open>foo\<close> and the object-valued parameter
  \<open>bar\<close>, the error is the normalizer's, and its message contains neither \<open>foo\<close> nor
  \<open>Patient\<close>. The unknown parameter \<^verbatim>\<open>__proto__\<close> raises no error at all.
\<close>

theorem C5_counterexample:
  "(''foo'', JStr ''1'') \<in> set [(''foo'', JStr ''1''), (''bar'', JObj [(''key'', JStr ''x'')])]
   \<and> ''foo'' \<notin> set [''_count'']
   \<and> sample_registry ''Patient'' ''foo'' = None
   \<and> buildQueryForAllSearchParameters sample_typeQueries [''_count''] sample_registry
         \<lparr> resourceType = ''Patient'',
           queryParams = [(''foo'', JStr ''1''), (''bar'', JObj [(''key'', JStr ''x'')])] \<rparr> []
       = Inl (InvalidSearchParameterError
                (''Invalid search parameter: '' @ [CHR 0x27] @ ''bar'' @ [CHR 0x27]))
   \<and> \<not> sublist ''foo'' (''Invalid search parameter: '' @ [CHR 0x27] @ ''bar'' @ [CHR 0x27])
   \<and> \<not> sublist ''Patient'' (''Invalid search parameter: '' @ [CHR 0x27] @ ''bar'' @ [CHR 0x27])
   \<and> sample_registry ''Patient'' ''__proto__'' = None
   \<and> buildQueryForAllSearchParameters sample_typeQueries [''_count''] sample_registry
         \<lparr> resourceType = ''Patient'', queryParams = [(''__proto__'', JStr ''1'')] \<rparr> []
       = Inr (JObj [(''bool'', JObj [(''filter'', JArr []), (''must'', JArr [])])])"
proof -
  have "buildQueryForAllSearchParameters sample_typeQueries [''_count''] sample_registry
         \<lparr> resourceType = ''Patient'',
           queryParams = [(''foo'', JStr ''1''), (''bar'', JObj [(''key'', JStr ''x'')])] \<rparr> []
       = Inl (InvalidSearchParameterError
                (''Invalid search parameter: '' @ [CHR 0x27] @ ''bar'' @ [CHR 0x27]))"
    by (simp add: buildQueryForAllSearchParameters_def searchRequestQuery_def
          normalizeQueryParams_def invalidParameterMessage_def setProperty_def)
  moreover have "\<not> sublist ''foo'' (''Invalid search parameter: '' @ [CHR 0x27] @ ''bar'' @ [CHR 0x27])"
    by (simp add: sublist_Cons_right)
  moreover have "\<not> sublist ''Patient'' (''Invalid search parameter: '' @ [CHR 0x27] @ ''bar'' @ [CHR 0x27])"
    by (simp add: sublist_Cons_right)
  moreover have "sample_registry ''Patient'' ''foo'' = None"
    by (simp add: sample_registry_def)
  moreover have "sample_registry ''Patient'' ''__proto__'' = None"
    by (simp add: sample_registry_def)
  moreover have "buildQueryForAllSearchParameters sample_typeQueries [''_count''] sample_registry
         \<lparr> resourceType = ''Patient'', queryParams = [(''__proto__'', JStr ''1'')] \<rparr> []
       = Inr (JObj [(''bool'', JObj [(''filter'', JArr []), (''must'', JArr [])])])"
    by (simp add: buildQueryForAllSearchParameters_def searchRequestQuery_def
          normalizeQueryParams_def setProperty_def Object_entries_def)
  ultimately show ?thesis by simp
qed

text \<open>
  C7. For the request \<^verbatim>\<open>{"__proto__": "x"}\<close> on \<open>Patient\<close> there is one pair of a
  searchable parameter and a value, and the compilation returns
  \<^verbatim>\<open>{bool: {filter: [], must: []}}\<close>: the pair has no entry in \<^verbatim>\<open>must\<close>.
\<close>

theorem C7_proto_pair_has_no_must_entry:
  "''__proto__'' \<notin> set [''_count'']
   \<and> parameterValuePairs [''_count''] [(''__proto__'', JStr ''x'')] = [(''__proto__'', ''x'')]
   \<and> buildQueryForAllSearchParameters sample_typeQueries [''_count''] sample_registry
         \<lparr> resourceType = ''Patient'', queryParams = [(''__proto__'', JStr ''x'')] \<rparr> []
       = Inr (JObj [(''bool'', JObj [(''filter'', JArr []), (''must'', JArr [])])])"
  by (simp add: buildQueryForAllSearchParameters_def searchRequestQuery_def
        normalizeQueryParams_def setProperty_def parameterValuePairs_def Object_entries_def)

text \<open>
  C8, for requests whose values are all strings or arrays of strings. Names of the
  non-searchable set are never looked up: two registries that agree on all other names
  give the same result, whatever they answer for those names (this part holds for every
  request). For a request object with well-shaped values the result is that of the request
  with the non-searchable entries removed, and an error of the compilation names a
  searchable parameter the registry does not know. For every request, an error is the
  normalizer's or of that kind.
\<close>

theorem C8_non_searchable_excluded:
  assumes "\<forall>p. p \<notin> set ns \<longrightarrow> reg' (resourceType req) p = reg (resourceType req) p"
  shows "buildQueryForAllSearchParameters tq ns reg req additionalFilters
           = buildQueryForAllSearchParameters tq ns reg' req additionalFilters
       \<and> (distinct (map fst (queryParams req))
            \<and> (\<forall>e\<in>set (queryParams req). stringOrStringArray (snd e)) \<longrightarrow>
          buildQueryForAllSearchParameters tq ns reg req additionalFilters
            = buildQueryForAllSearchParameters tq ns reg'
                (req\<lparr>queryParams := filter (\<lambda>e. fst e \<notin> set ns) (queryParams req)\<rparr>)
                additionalFilters
          \<and> (\<forall>err. buildQueryForAllSearchParameters tq ns reg req additionalFilters = Inl err \<longrightarrow>
                (\<exists>p. p \<notin> set ns \<and> reg (resourceType req) p = None
                   \<and> err = InvalidSearchParameterError
                             (unknownParameterMessage p (resourceType req)))))
       \<and> (\<forall>err. buildQueryForAllSearchParameters tq ns reg req additionalFilters = Inl err \<longrightarrow>
             normalizeQueryParams (queryParams req) = Inl err
           \<or> (\<exists>p. p \<notin> set ns \<and> reg (resourceType req) p = None
                 \<and> err = InvalidSearchParameterError
                           (unknownParameterMessage p (resourceType req))))"
proof -
  have a: "searchRequestQuery tq ns reg req = searchRequestQuery tq ns reg' req"
    using assms by (rule searchRequestQuery_cong)
  have b: "searchRequestQuery tq ns reg' req
            = searchRequestQuery tq ns reg'
                (req\<lparr>queryParams := filter (\<lambda>e. fst e \<notin> set ns) (queryParams req)\<rparr>)"
    if d: "distinct (map fst (queryParams req))"
      and ok: "\<forall>e\<in>set (queryParams req). stringOrStringArray (snd e)"
  proof -
    let ?req' = "req\<lparr>queryParams := filter (\<lambda>e. fst e \<notin> set ns) (queryParams req)\<rparr>"
    have d': "distinct (map fst (queryParams ?req'))"
      using d by (simp add: distinct_map_filter)
    have ok': "\<forall>e\<in>set (queryParams ?req'). stringOrStringArray (snd e)"
      using ok by simp
    show ?thesis
      by (simp only: searchRequestQuery_good [OF ok d] searchRequestQuery_good [OF ok' d'])
         (simp add: Object_entries_filter conj_commute)
  qed
  have c: "normalizeQueryParams (queryParams req) = Inl err
           \<or> (\<exists>p. p \<notin> set ns \<and> reg (resourceType req) p = None
                 \<and> err = InvalidSearchParameterError
                           (unknownParameterMessage p (resourceType req)))"
    if "buildQueryForAllSearchParameters tq ns reg req additionalFilters = Inl err" for err
  proof -
    from that have "searchRequestQuery tq ns reg req = Inl err"
      by (cases "searchRequestQuery tq ns reg req")
         (auto simp: buildQueryForAllSearchParameters_def)
    then show ?thesis by (rule searchRequestQuery_Inl)
  qed
  have c': "\<exists>p. p \<notin> set ns \<and> reg (resourceType req) p = None
                 \<and> err = InvalidSearchParameterError
                           (unknownParameterMessage p (resourceType req))"
    if d: "distinct (map fst (queryParams req))"
      and ok: "\<forall>e\<in>set (queryParams req). stringOrStringArray (snd e)"
      and e: "buildQueryForAllSearchParameters tq ns reg req additionalFilters = Inl err" for err
    using c [OF e] normalize_good [OF ok d] by auto
  from a b c c' show ?thesis
    by (simp add: buildQueryForAllSearchParameters_def)
qed

theorem C8_non_searchable_excluded_witness:
  "sample_registry ''Patient'' ''_count'' = None
   \<and> buildQueryForAllSearchParameters sample_typeQueries [''_count''] sample_registry
         \<lparr> resourceType = ''Patient'',
           queryParams = [(''_count'', JStr ''10''), (''name'', JStr ''Smith'')] \<rparr> []
       = buildQueryForAllSearchParameters sample_typeQueries [''_count'']
           (\<lambda>rt p. if p = ''_count'' then Some sample_name else sample_registry rt p)
           \<lparr> resourceType = ''Patient'', queryParams = [(''name'', JStr ''Smith'')] \<rparr> []
   \<and> buildQueryForAllSearchParameters sample_typeQueries [''_count''] sample_registry
         \<lparr> resourceType = ''Patient'',
           queryParams = [(''_count'', JStr ''10''), (''name'', JStr ''Smith'')] \<rparr> []
       = Inr (JObj [(''bool'', JObj [(''filter'', JArr []),
           (''must'', JArr
              [JArr [JObj [(''match'', JStr ''name.family''), (''value'', JStr ''Smith'')]]])])])"
proof -
  have res: "buildQueryForAllSearchParameters sample_typeQueries [''_count''] sample_registry
         \<lparr> resourceType = ''Patient'',
           queryParams = [(''_count'', JStr ''10''), (''name'', JStr ''Smith'')] \<rparr> []
       = Inr (JObj [(''bool'', JObj [(''filter'', JArr []),
           (''must'', JArr
              [JArr [JObj [(''match'', JStr ''name.family''), (''value'', JStr ''Smith'')]]])])])"
    by (simp add: buildQueryForAllSearchParameters_def searchRequestQuery_def
        normalizeQueryParams_def setProperty_def Object_entries_def isArrayIndex_def isDigit_def
        sample_registry_def
        searchParamQuery_def splitSearchValue_scan comma_def backslash_def
        compiledQueries_def sample_name_def sample_family_def
        typeQueryWithConditions_def typeQuery_def sample_typeQueries_def sample_leaf_def)
  have none: "sample_registry ''Patient'' ''_count'' = None"
    by (simp add: sample_registry_def)
  let ?req = "\<lparr> resourceType = ''Patient'',
                queryParams = [(''_count'', JStr ''10''), (''name'', JStr ''Smith'')] \<rparr>"
  let ?reg' = "\<lambda>rt p. if p = ''_count'' then Some sample_name else sample_registry rt p"
  note t = C8_non_searchable_excluded
            [where ns = "[''_count'']" and reg = sample_registry and reg' = ?reg'
               and req = ?req and tq = sample_typeQueries and additionalFilters = "[]"]
  have agree: "\<forall>p. p \<notin> set [''_count''] \<longrightarrow>
                 ?reg' (resourceType ?req) p = sample_registry (resourceType ?req) p"
    by simp
  have shape: "distinct (map fst (queryParams ?req))
                 \<and> (\<forall>e\<in>set (queryParams ?req). stringOrStringArray (snd e))"
    by simp
  from t [OF agree] have
    "distinct (map fst (queryParams ?req))
       \<and> (\<forall>e\<in>set (queryParams ?req). stringOrStringArray (snd e)) \<longrightarrow>
     buildQueryForAllSearchParameters sample_typeQueries [''_count''] sample_registry ?req []
       = buildQueryForAllSearchParameters sample_typeQueries [''_count''] ?reg'
           (?req\<lparr>queryParams := filter (\<lambda>e. fst e \<notin> set [''_count'']) (queryParams ?req)\<rparr>) []"
    by blast
  with shape have
    "buildQueryForAllSearchParameters sample_typeQueries [''_count''] sample_registry ?req []
       = buildQueryForAllSearchParameters sample_typeQueries [''_count''] ?reg'
           (?req\<lparr>queryParams := filter (\<lambda>e. fst e \<notin> set [''_count'']) (queryParams ?req)\<rparr>) []"
    by blast
  then have
    "buildQueryForAllSearchParameters sample_typeQueries [''_count''] sample_registry ?req []
       = buildQueryForAllSearchParameters sample_typeQueries [''_count''] ?reg'
           \<lparr> resourceType = ''Patient'', queryParams = [(''name'', JStr ''Smith'')] \<rparr> []"
    by simp
  with res none show ?thesis by simp
qed

text \<open>
  C8 as stated fails: the normalizer runs before the non-searchable names are dropped,
  so an object value under the non-searchable name \<open>_count\<close> makes the compilation
  throw, with a message naming \<open>_count\<close>.
\<close>

theorem C8_counterexample:
  "''_count'' \<in> set [''_count'']
   \<and> buildQueryForAllSearchParameters sample_typeQueries [''_count''] sample_registry
         \<lparr> resourceType = ''Patient'',
           queryParams = [(''_count'', JObj [(''a'', JStr ''1'')])] \<rparr> []
       = Inl (InvalidSearchParameterError
                (''Invalid search parameter: '' @ [CHR 0x27] @ ''_count'' @ [CHR 0x27]))"
  by (simp add: buildQueryForAllSearchParameters_def searchRequestQuery_def
        normalizeQueryParams_def invalidParameterMessage_def)

end
